theory Spec2Isabelle
  imports Complex_Main
begin

section \<open>The colour game of \<^verbatim>\<open>src/App.tsx\<close>\<close>

text \<open>
  The component \<^verbatim>\<open>App\<close> keeps its game in React state cells and changes them in three
  places: \<^verbatim>\<open>startGame\<close>, \<^verbatim>\<open>handleBlockClick\<close> and the interval callback installed by
  the timer effect. Each of them is embedded as a function from the state before the event
  to the state after it (all \<^verbatim>\<open>setX\<close> calls of one handler applied).

  JavaScript numbers are modelled by \<^typ>\<open>int\<close> where the code only ever holds
  integers (score, seconds, indices) and by \<^typ>\<open>real\<close> where it does not (colour
  channels, the lightness difference); \<^verbatim>\<open>Math.log2\<close> is the real logarithm to base 2.

  Every call of \<^verbatim>\<open>Math.random()\<close> is an explicit argument: the number the call returned.
  \<^verbatim>\<open>Math.random()\<close> returns a number \<open>r\<close> with \<open>0 \<le> r < 1\<close>.
\<close>

subsection \<open>Types and constants\<close>

record ColorHSL =
  h :: real
  s :: real
  l :: real

definition GRID_SIZE :: int where
  "GRID_SIZE = 5"

definition INITIAL_TIME :: int where
  "INITIAL_TIME = 60"

definition INITIAL_DIFF :: real where
  "INITIAL_DIFF = 20"

definition MIN_DIFF :: real where
  "MIN_DIFF = 1.5"

text \<open>The state cells of \<^verbatim>\<open>App\<close> (the language of the captions is left out).\<close>

record App =
  score :: int
  timeLeft :: int
  isActive :: bool
  isGameOver :: bool
  grid :: "ColorHSL list"
  targetIndex :: int
  difficulty :: real
  lastDiff :: real

text \<open>The initial values given to \<^verbatim>\<open>useState\<close>.\<close>

definition initial :: App where
  "initial = \<lparr> score = 0, timeLeft = INITIAL_TIME, isActive = False, isGameOver = False,
               grid = [], targetIndex = - 1, difficulty = INITIAL_DIFF, lastDiff = 0 \<rparr>"

text \<open>
  The five numbers \<^verbatim>\<open>Math.random()\<close> returns during one \<^verbatim>\<open>generateLevel\<close>, in the order
  of the calls: hue, saturation and lightness of the base colour, the target cell, the
  direction of the shift.
\<close>

record draws =
  rnd_h :: real
  rnd_s :: real
  rnd_l :: real
  rnd_idx :: real
  rnd_dir :: real

definition unit_draw :: "real \<Rightarrow> bool" where
  "unit_draw r \<longleftrightarrow> 0 \<le> r \<and> r < 1"

definition valid_draws :: "draws \<Rightarrow> bool" where
  "valid_draws d \<longleftrightarrow>
     unit_draw (rnd_h d) \<and> unit_draw (rnd_s d) \<and> unit_draw (rnd_l d) \<and>
     unit_draw (rnd_idx d) \<and> unit_draw (rnd_dir d)"

subsection \<open>Helpers\<close>

text \<open>
  \<^verbatim>\<open>generateColor\<close>: three draws, each scaled and floored. The products are the exact
  ones; the code floors the product rounded to a double, which for a draw just below a
  bound \<open>k/40\<close> or \<open>k/360\<close> can already be the whole number \<open>k\<close>. So the model says
  which whole numbers come out, not which draw gives which of them.
\<close>

definition generateColor :: "real \<Rightarrow> real \<Rightarrow> real \<Rightarrow> ColorHSL" where
  "generateColor r1 r2 r3 =
     \<lparr> h = of_int \<lfloor>r1 * 360\<rfloor>,
       s = 40 + of_int \<lfloor>r2 * 40\<rfloor>,
       l = 30 + of_int \<lfloor>r3 * 40\<rfloor> \<rparr>"

text \<open>\<^verbatim>\<open>getTargetColor\<close>: the base colour with its lightness moved up or down and clamped.\<close>

definition getTargetColor :: "ColorHSL \<Rightarrow> real \<Rightarrow> real \<Rightarrow> ColorHSL" where
  "getTargetColor base diff r =
     (let direction = (if r > 0.5 then 1 else - 1)
      in base \<lparr> l := max 0 (min 100 (l base + diff * direction)) \<rparr>)"

text \<open>The lightness difference computed at the head of \<^verbatim>\<open>generateLevel\<close>.\<close>

definition newDiff :: "int \<Rightarrow> real" where
  "newDiff currentScore =
     max MIN_DIFF (INITIAL_DIFF - log 2 (of_int (currentScore + 1)) * 3.5)"

text \<open>
  \<^verbatim>\<open>generateLevel\<close>. The array has \<^verbatim>\<open>GRID_SIZE * GRID_SIZE\<close> copies of the base colour
  and the cell at \<^verbatim>\<open>targetIdx\<close> is overwritten. With a draw in \<open>[0, 1)\<close> the index is
  inside the array, where the assignment of JavaScript and the list update agree.
\<close>

definition generateLevel :: "App \<Rightarrow> int \<Rightarrow> draws \<Rightarrow> App" where
  "generateLevel st currentScore d =
     (let baseColor = generateColor (rnd_h d) (rnd_s d) (rnd_l d);
          nd = newDiff currentScore;
          newGrid = replicate (nat (GRID_SIZE * GRID_SIZE)) baseColor;
          targetIdx = \<lfloor>rnd_idx d * of_int (GRID_SIZE * GRID_SIZE)\<rfloor>;
          newGrid = newGrid [nat targetIdx := getTargetColor baseColor nd (rnd_dir d)]
      in st \<lparr> difficulty := nd, lastDiff := nd, grid := newGrid, targetIndex := targetIdx \<rparr>)"

subsection \<open>Game actions\<close>

definition startGame :: "App \<Rightarrow> draws \<Rightarrow> App" where
  "startGame st d =
     generateLevel (st \<lparr> score := 0, timeLeft := INITIAL_TIME,
                         isActive := True, isGameOver := False \<rparr>) 0 d"

text \<open>
  \<^verbatim>\<open>handleBlockClick\<close>. The draws are those of the \<^verbatim>\<open>generateLevel\<close> call and are read
  only on a hit. The confetti on every tenth point changes no state cell.
\<close>

definition handleBlockClick :: "App \<Rightarrow> int \<Rightarrow> draws \<Rightarrow> App" where
  "handleBlockClick st index d =
     (if \<not> isActive st \<or> isGameOver st then st
      else if index = targetIndex st then
        (let newScore = score st + 1
         in generateLevel (st \<lparr> score := newScore \<rparr>) newScore d)
      else st \<lparr> timeLeft := max 0 (timeLeft st - 3) \<rparr>)"

text \<open>
  The timer effect keeps an interval running exactly while \<^verbatim>\<open>isActive && timeLeft > 0\<close>;
  it is cleared and set again whenever one of the two cells changes.
\<close>

definition timerRunning :: "App \<Rightarrow> bool" where
  "timerRunning st \<longleftrightarrow> isActive st \<and> timeLeft st > 0"

text \<open>One firing of the interval callback; nothing fires while no interval is set.\<close>

definition tick :: "App \<Rightarrow> App" where
  "tick st =
     (if timerRunning st then
        (if timeLeft st \<le> 1
         then st \<lparr> isActive := False, isGameOver := True, timeLeft := 0 \<rparr>
         else st \<lparr> timeLeft := timeLeft st - 1 \<rparr>)
      else st)"

subsection \<open>The session as a state machine\<close>

text \<open>
  The screen shown tells the three activity states apart: the start screen when
  \<^verbatim>\<open>!isActive && !isGameOver\<close>, the report when \<^verbatim>\<open>isGameOver\<close>, the grid otherwise.
\<close>

datatype activity = Idle | Active | Over

definition activityState :: "App \<Rightarrow> activity" where
  "activityState st =
     (if \<not> isActive st \<and> \<not> isGameOver st then Idle
      else if isGameOver st then Over
      else Active)"

text \<open>
  The only call of \<^verbatim>\<open>handleBlockClick\<close> is in the buttons of the grid screen, one for each
  cell of \<^verbatim>\<open>grid\<close>, each passing its own position \<^verbatim>\<open>idx\<close> of \<^verbatim>\<open>grid.map\<close>. The other two
  screens have no such button.
\<close>

definition gridButtons :: "App \<Rightarrow> int list" where
  "gridButtons st =
     (if \<not> isActive st \<and> \<not> isGameOver st then []
      else if isGameOver st then []
      else map int [0..<length (grid st)])"

datatype event = Start draws | Tick | Click int draws

fun step :: "App \<Rightarrow> event \<Rightarrow> App" where
  "step st (Start d) = startGame st d"
| "step st Tick = tick st"
| "step st (Click index d) = handleBlockClick st index d"

definition run :: "App \<Rightarrow> event list \<Rightarrow> App" where
  "run st es = foldl step st es"

fun valid_event :: "event \<Rightarrow> bool" where
  "valid_event (Start d) = valid_draws d"
| "valid_event Tick = True"
| "valid_event (Click index d) = valid_draws d"

text \<open>The states the component can be in: the initial one and those events lead to.\<close>

inductive reachable :: "App \<Rightarrow> bool" where
  reachable_initial: "reachable initial"
| reachable_step: "reachable st \<Longrightarrow> valid_event e \<Longrightarrow> reachable (step st e)"

fun isStart :: "event \<Rightarrow> bool" where
  "isStart (Start d) = True"
| "isStart Tick = False"
| "isStart (Click index d) = False"

text \<open>What holds of every state the component can be in (shown below).\<close>

definition session_inv :: "App \<Rightarrow> bool" where
  "session_inv st \<longleftrightarrow>
     0 \<le> score st \<and> 0 \<le> timeLeft st \<and> timeLeft st \<le> INITIAL_TIME \<and>
     (isGameOver st \<longrightarrow> \<not> isActive st \<and> timeLeft st = 0) \<and>
     (isActive st \<or> isGameOver st \<longrightarrow>
        length (grid st) = 25 \<and> 0 \<le> targetIndex st \<and> targetIndex st < 25 \<and>
        difficulty st = newDiff (score st) \<and> lastDiff st = newDiff (score st)) \<and>
     (\<not> isActive st \<and> \<not> isGameOver st \<longrightarrow> st = initial)"

text \<open>A fixed outcome of the five draws, for running the game on concrete input.\<close>

definition sample_draws :: draws where
  "sample_draws = \<lparr> rnd_h = 1/4, rnd_s = 1/4, rnd_l = 1/4, rnd_idx = 1/4, rnd_dir = 1/4 \<rparr>"

text \<open>
  A state with two seconds left: the game started, nineteen clicks on cell 0 (the target
  is cell 6), one firing of the timer.
\<close>

definition two_seconds_left :: App where
  "two_seconds_left =
     run initial (Start sample_draws # replicate 19 (Click 0 sample_draws) @ [Tick])"

section \<open>Basic facts\<close>

subsection \<open>Scaled and floored draws\<close>

lemma floor_draw_lower: "unit_draw r \<Longrightarrow> 0 \<le> n \<Longrightarrow> 0 \<le> \<lfloor>r * of_int n\<rfloor>"
  by (simp add: unit_draw_def)

lemma floor_draw_upper: "unit_draw r \<Longrightarrow> 0 < n \<Longrightarrow> \<lfloor>r * of_int n\<rfloor> < n"
proof -
  assume a: "unit_draw r" and n: "0 < n"
  then have "r * of_int n < 1 * of_int n"
    unfolding unit_draw_def by (intro mult_strict_right_mono) auto
  then show ?thesis by (simp add: floor_less_iff)
qed

lemma floor_scaled_hit:
  assumes "0 \<le> i" and "i < n"
  shows "unit_draw (real_of_int i / of_int n)"
    and "\<lfloor>real_of_int i / of_int n * of_int n\<rfloor> = i"
proof -
  from assms have p: "(0::real) < of_int n" by simp
  from assms p show "unit_draw (real_of_int i / of_int n)"
    by (simp add: unit_draw_def)
  from p have "real_of_int i / of_int n * of_int n = of_int i" by simp
  then show "\<lfloor>real_of_int i / of_int n * of_int n\<rfloor> = i" by (simp only: floor_of_int)
qed

lemma generateColor_l_bounds:
  assumes "unit_draw r3"
  shows "30 \<le> l (generateColor r1 r2 r3)" and "l (generateColor r1 r2 r3) \<le> 69"
proof -
  have a: "0 \<le> \<lfloor>r3 * 40\<rfloor>" using floor_draw_lower [OF assms, of 40] by simp
  have b: "\<lfloor>r3 * 40\<rfloor> < 40" using floor_draw_upper [OF assms, of 40] by simp
  from a show "30 \<le> l (generateColor r1 r2 r3)" by (simp add: generateColor_def)
  from b have "\<lfloor>r3 * 40\<rfloor> \<le> 39" by simp
  then have "real_of_int \<lfloor>r3 * 40\<rfloor> \<le> 39" by linarith
  then show "l (generateColor r1 r2 r3) \<le> 69" by (simp add: generateColor_def)
qed

subsection \<open>The lightness difference\<close>

lemma newDiff_lower: "MIN_DIFF \<le> newDiff sc"
  by (simp add: newDiff_def)

lemma newDiff_pos: "0 < newDiff sc"
  using newDiff_lower [of sc] by (simp add: MIN_DIFF_def)

lemma newDiff_upper: "0 \<le> sc \<Longrightarrow> newDiff sc \<le> INITIAL_DIFF"
proof -
  assume "0 \<le> sc"
  then have "0 \<le> log 2 (of_int (sc + 1))"
    by (simp add: zero_le_log_cancel_iff)
  then show ?thesis
    by (simp add: newDiff_def MIN_DIFF_def INITIAL_DIFF_def)
qed

lemma newDiff_0: "newDiff 0 = 20"
  by (simp add: newDiff_def MIN_DIFF_def INITIAL_DIFF_def)

lemma newDiff_1: "newDiff 1 = 16.5"
  by (simp add: newDiff_def MIN_DIFF_def INITIAL_DIFF_def)

subsection \<open>The shifted colour\<close>

lemma getTargetColor_hs:
  "h (getTargetColor base diff r) = h base" "s (getTargetColor base diff r) = s base"
  by (simp_all add: getTargetColor_def Let_def)

lemma getTargetColor_l:
  "l (getTargetColor base diff r) = max 0 (min 100 (l base + (if r > 0.5 then diff else - diff)))"
  by (simp add: getTargetColor_def Let_def)

lemma getTargetColor_differs:
  assumes "0 < l base" and "l base < 100" and "0 < diff"
  shows "l (getTargetColor base diff r) \<noteq> l base"
  using assms by (auto simp add: getTargetColor_l max_def min_def)

lemma getTargetColor_exact:
  assumes "30 \<le> l base" and "l base \<le> 69" and "1.5 \<le> diff" and "diff \<le> 20"
  shows "l (getTargetColor base diff r) = l base + (if r > 0.5 then diff else - diff)"
  using assms by (auto simp add: getTargetColor_l max_def min_def)

subsection \<open>What \<^verbatim>\<open>generateLevel\<close> writes\<close>

lemma generateLevel_frame:
  "score (generateLevel st sc d) = score st"
  "timeLeft (generateLevel st sc d) = timeLeft st"
  "isActive (generateLevel st sc d) = isActive st"
  "isGameOver (generateLevel st sc d) = isGameOver st"
  by (simp_all add: generateLevel_def Let_def)

lemma generateLevel_difficulty:
  "difficulty (generateLevel st sc d) = newDiff sc"
  "lastDiff (generateLevel st sc d) = newDiff sc"
  by (simp_all add: generateLevel_def Let_def)

lemma generateLevel_length: "length (grid (generateLevel st sc d)) = 25"
  by (simp add: generateLevel_def Let_def GRID_SIZE_def)

lemma generateLevel_targetIndex:
  assumes "unit_draw (rnd_idx d)"
  shows "0 \<le> targetIndex (generateLevel st sc d)" and "targetIndex (generateLevel st sc d) < 25"
  using floor_draw_lower [OF assms, of 25] floor_draw_upper [OF assms, of 25]
  by (simp_all add: generateLevel_def Let_def GRID_SIZE_def)

lemma generateLevel_cells:
  assumes "unit_draw (rnd_idx d)"
  shows "grid (generateLevel st sc d) ! nat (targetIndex (generateLevel st sc d)) =
           getTargetColor (generateColor (rnd_h d) (rnd_s d) (rnd_l d)) (newDiff sc) (rnd_dir d)"
    and "i < 25 \<Longrightarrow> i \<noteq> nat (targetIndex (generateLevel st sc d)) \<Longrightarrow>
           grid (generateLevel st sc d) ! i = generateColor (rnd_h d) (rnd_s d) (rnd_l d)"
proof -
  have a: "0 \<le> \<lfloor>rnd_idx d * 25\<rfloor>" using floor_draw_lower [OF assms, of 25] by simp
  have b: "\<lfloor>rnd_idx d * 25\<rfloor> < 25" using floor_draw_upper [OF assms, of 25] by simp
  from a b have c: "nat \<lfloor>rnd_idx d * 25\<rfloor> < 25" by linarith
  show "grid (generateLevel st sc d) ! nat (targetIndex (generateLevel st sc d)) =
           getTargetColor (generateColor (rnd_h d) (rnd_s d) (rnd_l d)) (newDiff sc) (rnd_dir d)"
    by (simp add: generateLevel_def Let_def GRID_SIZE_def c)
  show "i < 25 \<Longrightarrow> i \<noteq> nat (targetIndex (generateLevel st sc d)) \<Longrightarrow>
           grid (generateLevel st sc d) ! i = generateColor (rnd_h d) (rnd_s d) (rnd_l d)"
    by (simp add: generateLevel_def Let_def GRID_SIZE_def)
qed

subsection \<open>The invariant of the session\<close>

lemma session_inv_initial: "session_inv initial"
  by (simp add: session_inv_def initial_def INITIAL_TIME_def)

lemma session_inv_startGame:
  assumes "valid_draws d"
  shows "session_inv (startGame st d)"
proof -
  from assms have u: "unit_draw (rnd_idx d)" by (simp add: valid_draws_def)
  show ?thesis
    unfolding session_inv_def startGame_def
    by (simp add: generateLevel_frame generateLevel_difficulty generateLevel_length
        generateLevel_targetIndex [OF u] INITIAL_TIME_def)
qed

lemma session_inv_tick:
  assumes "session_inv st"
  shows "session_inv (tick st)"
  using assms
  by (auto simp add: session_inv_def tick_def timerRunning_def INITIAL_TIME_def)

lemma session_inv_handleBlockClick:
  assumes "session_inv st" and "valid_draws d"
  shows "session_inv (handleBlockClick st index d)"
proof -
  from assms have u: "unit_draw (rnd_idx d)" by (simp add: valid_draws_def)
  show ?thesis
  proof (cases "\<not> isActive st \<or> isGameOver st")
    case True
    with assms show ?thesis by (simp add: handleBlockClick_def)
  next
    case False
    note act = this
    show ?thesis
    proof (cases "index = targetIndex st")
      case True
      with act assms(1) show ?thesis
        unfolding session_inv_def handleBlockClick_def
        by (simp add: Let_def generateLevel_frame generateLevel_difficulty generateLevel_length
            generateLevel_targetIndex [OF u])
    next
      case False
      with act assms(1) show ?thesis
        unfolding session_inv_def handleBlockClick_def by auto
    qed
  qed
qed

lemma reachable_session_inv: "reachable st \<Longrightarrow> session_inv st"
proof (induction rule: reachable.induct)
  case reachable_initial
  show ?case by (rule session_inv_initial)
next
  case (reachable_step st e)
  then show ?case
    by (cases e) (simp_all add: session_inv_startGame session_inv_tick session_inv_handleBlockClick)
qed

lemma reachable_run:
  "reachable st \<Longrightarrow> list_all valid_event es \<Longrightarrow> reachable (run st es)"
proof (induction es arbitrary: st)
  case Nil
  then show ?case by (simp add: run_def)
next
  case (Cons e es)
  from Cons.prems have "reachable (step st e)" by (simp add: reachable_step)
  with Cons.IH [of "step st e"] Cons.prems show ?case by (simp add: run_def)
qed

subsection \<open>The game on the sample draws\<close>

lemma valid_sample_draws: "valid_draws sample_draws"
  by (simp add: valid_draws_def sample_draws_def unit_draw_def)

lemma generateColor_sample:
  "generateColor (rnd_h sample_draws) (rnd_s sample_draws) (rnd_l sample_draws) =
     \<lparr> h = 90, s = 50, l = 40 \<rparr>"
  by (simp add: sample_draws_def generateColor_def)

lemma startGame_sample:
  "startGame st sample_draws =
     st \<lparr> score := 0, timeLeft := 60, isActive := True, isGameOver := False,
          grid := (replicate 25 \<lparr> h = 90, s = 50, l = 40 \<rparr>) [6 := \<lparr> h = 90, s = 50, l = 20 \<rparr>],
          targetIndex := 6, difficulty := 20, lastDiff := 20 \<rparr>"
  by (simp add: startGame_def generateLevel_def Let_def sample_draws_def generateColor_def
      getTargetColor_def newDiff_0 GRID_SIZE_def INITIAL_TIME_def)

subsection \<open>Clicks and ticks\<close>

lemma handleBlockClick_miss:
  assumes "isActive st" and "\<not> isGameOver st" and "index \<noteq> targetIndex st"
  shows "handleBlockClick st index d = st \<lparr> timeLeft := max 0 (timeLeft st - 3) \<rparr>"
  using assms by (simp add: handleBlockClick_def)

lemma handleBlockClick_inactive:
  assumes "\<not> isActive st \<or> isGameOver st"
  shows "handleBlockClick st index d = st"
  using assms by (simp add: handleBlockClick_def)

lemma tick_fixed_funpow: "tick st = st \<Longrightarrow> (tick ^^ n) st = st"
  by (induction n) simp_all

lemma reachable_startGame_sample: "reachable (startGame initial sample_draws)"
  using reachable_step [OF reachable_initial, of "Start sample_draws"]
  by (simp add: valid_sample_draws)

lemma two_seconds_left_eq:
  "two_seconds_left =
     \<lparr> score = 0, timeLeft = 2, isActive = True, isGameOver = False,
       grid = (replicate 25 \<lparr> h = 90, s = 50, l = 40 \<rparr>) [6 := \<lparr> h = 90, s = 50, l = 20 \<rparr>],
       targetIndex = 6, difficulty = 20, lastDiff = 20 \<rparr>"
  by (simp add: two_seconds_left_def run_def startGame_sample handleBlockClick_def tick_def
      timerRunning_def initial_def numeral_eq_Suc)

lemma reachable_two_seconds_left: "reachable two_seconds_left"
  unfolding two_seconds_left_def
  by (rule reachable_run [OF reachable_initial]) (simp add: valid_sample_draws list_all_iff)

lemma gridButtons_range:
  assumes "session_inv st" and "index \<in> set (gridButtons st)"
  shows "0 \<le> index" and "index < 25"
proof -
  from assms(2) have act: "isActive st" and mem: "index \<in> set (map int [0..<length (grid st)])"
    by (auto simp add: gridButtons_def split: if_splits)
  from assms(1) act have len: "length (grid st) = 25" by (simp add: session_inv_def)
  from mem show "0 \<le> index" by auto
  from mem len show "index < 25" by auto
qed

lemma step_initial_no_start: "\<not> isStart e \<Longrightarrow> step initial e = initial"
  by (cases e) (simp_all add: tick_def timerRunning_def handleBlockClick_def initial_def)

lemma run_initial_no_start: "\<forall>e\<in>set es. \<not> isStart e \<Longrightarrow> run initial es = initial"
proof (induction es)
  case Nil
  show ?case by (simp add: run_def)
next
  case (Cons e es)
  then have "step initial e = initial" by (simp add: step_initial_no_start)
  with Cons show ?case by (simp add: run_def)
qed

section \<open>The difficulty curve\<close>

text \<open>
  Claim C4. For every integer score \<open>\<ge> 0\<close> the lightness difference of the next level is
  \<open>max 1.5 (20 - 3.5 * log2 (score + 1))\<close>; it is at least \<^verbatim>\<open>MIN_DIFF\<close> = 1.5 and at
  most \<^verbatim>\<open>INITIAL_DIFF\<close> = 20, and at score 0 it is 20.
\<close>

theorem newDiff_bounds:
  assumes "0 \<le> currentScore"
  shows "newDiff currentScore = max 1.5 (20 - 3.5 * log 2 (of_int currentScore + 1)) \<and>
         MIN_DIFF = 1.5 \<and> INITIAL_DIFF = 20 \<and>
         MIN_DIFF \<le> newDiff currentScore \<and> newDiff currentScore \<le> INITIAL_DIFF \<and>
         newDiff 0 = INITIAL_DIFF"
proof -
  have f: "newDiff currentScore = max 1.5 (20 - 3.5 * log 2 (of_int currentScore + 1))"
    by (simp add: newDiff_def MIN_DIFF_def INITIAL_DIFF_def mult.commute)
  have z: "newDiff 0 = INITIAL_DIFF"
    by (simp add: newDiff_0 INITIAL_DIFF_def)
  from f z newDiff_lower [of currentScore] newDiff_upper [OF assms] show ?thesis
    by (simp add: MIN_DIFF_def INITIAL_DIFF_def)
qed

theorem newDiff_bounds_witness:
  "(0::int) \<le> 1 \<and> newDiff 1 = 16.5 \<and> MIN_DIFF \<le> newDiff 1 \<and> newDiff 1 \<le> INITIAL_DIFF"
proof -
  have p: "(0::int) \<le> 1" by simp
  show ?thesis using newDiff_bounds [OF p] by (simp add: newDiff_1)
qed

text \<open>
  Claim C5. For all integers \<open>score2 > score1 \<ge> 0\<close> the lightness difference at
  \<open>score2\<close> is at most the one at \<open>score1\<close>: the difference never grows with the score.
\<close>

theorem newDiff_monotone:
  assumes "0 \<le> score1" and "score1 < score2"
  shows "newDiff score2 \<le> newDiff score1"
proof -
  from assms have "log 2 (of_int (score1 + 1)) \<le> log 2 (of_int (score2 + 1))"
    by (simp add: log_le_cancel_iff)
  then have "INITIAL_DIFF - log 2 (of_int (score2 + 1)) * 3.5
             \<le> INITIAL_DIFF - log 2 (of_int (score1 + 1)) * 3.5"
    by simp
  then show ?thesis
    unfolding newDiff_def by (rule max.mono [OF order_refl])
qed

theorem newDiff_monotone_witness:
  "(0::int) \<le> 0 \<and> (0::int) < 1 \<and> newDiff 1 \<le> newDiff 0 \<and> newDiff 1 = 16.5 \<and> newDiff 0 = 20"
proof -
  have p: "(0::int) \<le> 0" and q: "(0::int) < 1" by simp_all
  show ?thesis using newDiff_monotone [OF p q] by (simp add: newDiff_0 newDiff_1)
qed

section \<open>The level generator\<close>

text \<open>
  Claim C3. Whatever the five draws and whatever the score (so for every lightness
  difference the game computes, all of them positive), \<^verbatim>\<open>generateLevel\<close> leaves a grid of
  exactly 25 colours and a target index in \<open>[0, 25)\<close>; the cell at the target index has the
  hue and the saturation of the base colour and another lightness, and each of the other 24
  cells is the base colour. The odd cell differs from the base colour in lightness only for
  every positive difference, not only for the computed one.
\<close>

theorem generateLevel_one_odd_cell:
  assumes "valid_draws d" and "0 \<le> currentScore"
  shows "(let base = generateColor (rnd_h d) (rnd_s d) (rnd_l d);
              st' = generateLevel st currentScore d;
              t = nat (targetIndex st')
          in length (grid st') = 25 \<and> 0 \<le> targetIndex st' \<and> targetIndex st' < 25 \<and>
             0 < difficulty st' \<and>
             (\<forall>i<25. i \<noteq> t \<longrightarrow> grid st' ! i = base) \<and>
             h (grid st' ! t) = h base \<and> s (grid st' ! t) = s base \<and> l (grid st' ! t) \<noteq> l base \<and>
             (\<forall>i<25. grid st' ! i \<noteq> base \<longleftrightarrow> i = t) \<and>
             (\<forall>delta>0. h (getTargetColor base delta (rnd_dir d)) = h base \<and>
                          s (getTargetColor base delta (rnd_dir d)) = s base \<and>
                          l (getTargetColor base delta (rnd_dir d)) \<noteq> l base))"
proof -
  define base where "base = generateColor (rnd_h d) (rnd_s d) (rnd_l d)"
  define st' where "st' = generateLevel st currentScore d"
  define t where "t = nat (targetIndex st')"
  from assms(1) have ui: "unit_draw (rnd_idx d)" and ul: "unit_draw (rnd_l d)"
    by (simp_all add: valid_draws_def)
  have lb: "0 < l base" "l base < 100"
    using generateColor_l_bounds [OF ul, of "rnd_h d" "rnd_s d"] by (simp_all add: base_def)
  have len: "length (grid st') = 25" by (simp add: st'_def generateLevel_length)
  have ti: "0 \<le> targetIndex st'" "targetIndex st' < 25"
    using generateLevel_targetIndex [OF ui] by (simp_all add: st'_def)
  have dp: "0 < difficulty st'" by (simp add: st'_def generateLevel_difficulty newDiff_pos)
  have tc: "grid st' ! t = getTargetColor base (newDiff currentScore) (rnd_dir d)"
    using generateLevel_cells(1) [OF ui] by (simp add: st'_def t_def base_def)
  have oc: "\<forall>i<25. i \<noteq> t \<longrightarrow> grid st' ! i = base"
    using generateLevel_cells(2) [OF ui] by (simp add: st'_def t_def base_def)
  have th: "h (grid st' ! t) = h base" and ts: "s (grid st' ! t) = s base"
    by (simp_all add: tc getTargetColor_hs)
  have tl: "l (grid st' ! t) \<noteq> l base"
    unfolding tc by (rule getTargetColor_differs [OF lb newDiff_pos])
  from tl have tne: "grid st' ! t \<noteq> base" by auto
  have ex1: "\<forall>i<25. grid st' ! i \<noteq> base \<longleftrightarrow> i = t"
    using oc tne by auto
  have gen: "\<forall>delta>0. h (getTargetColor base delta (rnd_dir d)) = h base \<and>
                          s (getTargetColor base delta (rnd_dir d)) = s base \<and>
                          l (getTargetColor base delta (rnd_dir d)) \<noteq> l base"
    using getTargetColor_differs [OF lb] by (simp add: getTargetColor_hs)
  from len ti dp oc th ts tl ex1 gen show ?thesis
    unfolding Let_def base_def [symmetric] st'_def [symmetric] t_def [symmetric] by blast
qed

theorem generateLevel_one_odd_cell_witness:
  "valid_draws sample_draws \<and> (0::int) \<le> 0 \<and>
   length (grid (generateLevel initial 0 sample_draws)) = 25 \<and>
   targetIndex (generateLevel initial 0 sample_draws) = 6 \<and>
   grid (generateLevel initial 0 sample_draws) ! 6 = \<lparr> h = 90, s = 50, l = 20 \<rparr> \<and>
   grid (generateLevel initial 0 sample_draws) ! 5 = \<lparr> h = 90, s = 50, l = 40 \<rparr> \<and>
   grid (generateLevel initial 0 sample_draws) =
     (replicate 25 \<lparr> h = 90, s = 50, l = 40 \<rparr>) [6 := \<lparr> h = 90, s = 50, l = 20 \<rparr>]"
proof -
  have z: "(0::int) \<le> 0" by simp
  have g: "generateLevel initial 0 sample_draws =
     initial \<lparr> difficulty := 20, lastDiff := 20,
          grid := (replicate 25 \<lparr> h = 90, s = 50, l = 40 \<rparr>) [6 := \<lparr> h = 90, s = 50, l = 20 \<rparr>],
          targetIndex := 6 \<rparr>"
    by (simp add: generateLevel_def Let_def sample_draws_def generateColor_def
      getTargetColor_def newDiff_0 GRID_SIZE_def)
  show ?thesis
    using generateLevel_one_odd_cell [OF valid_sample_draws z, of initial] valid_sample_draws
    by (simp add: g generateColor_sample Let_def)
qed

section \<open>The colour model\<close>

text \<open>
  Claim C8, as the code has it. With draws in \<open>[0, 1)\<close>, \<^verbatim>\<open>generateColor\<close> returns a whole
  hue in \<open>[0, 359]\<close>, a whole saturation in \<open>[40, 79]\<close> and a whole lightness in
  \<open>[30, 69]\<close>, and every such triple is returned for some draws.
\<close>

theorem generateColor_range:
  "(unit_draw r1 \<and> unit_draw r2 \<and> unit_draw r3 \<longrightarrow>
      (\<exists>i j k. generateColor r1 r2 r3 = \<lparr> h = of_int i, s = of_int j, l = of_int k \<rparr> \<and>
               0 \<le> i \<and> i < 360 \<and> 40 \<le> j \<and> j < 80 \<and> 30 \<le> k \<and> k < 70)) \<and>
   (0 \<le> i \<and> i < 360 \<and> 40 \<le> j \<and> j < 80 \<and> 30 \<le> k \<and> k < 70 \<longrightarrow>
      (\<exists>r1 r2 r3. unit_draw r1 \<and> unit_draw r2 \<and> unit_draw r3 \<and>
         generateColor r1 r2 r3 = \<lparr> h = of_int i, s = of_int j, l = of_int k \<rparr>))"
proof -
  have into: "\<exists>i j k. generateColor r1 r2 r3 = \<lparr> h = of_int i, s = of_int j, l = of_int k \<rparr> \<and>
               0 \<le> i \<and> i < 360 \<and> 40 \<le> j \<and> j < 80 \<and> 30 \<le> k \<and> k < 70"
    if u: "unit_draw r1" "unit_draw r2" "unit_draw r3"
  proof -
    have "generateColor r1 r2 r3 =
        \<lparr> h = of_int \<lfloor>r1 * 360\<rfloor>, s = of_int (40 + \<lfloor>r2 * 40\<rfloor>), l = of_int (30 + \<lfloor>r3 * 40\<rfloor>) \<rparr>"
      by (simp add: generateColor_def)
    moreover have "0 \<le> \<lfloor>r1 * 360\<rfloor>" "\<lfloor>r1 * 360\<rfloor> < 360"
      using floor_draw_lower [OF u(1), of 360] floor_draw_upper [OF u(1), of 360] by simp_all
    moreover have "40 \<le> 40 + \<lfloor>r2 * 40\<rfloor>" "40 + \<lfloor>r2 * 40\<rfloor> < 80"
      using floor_draw_lower [OF u(2), of 40] floor_draw_upper [OF u(2), of 40] by simp_all
    moreover have "30 \<le> 30 + \<lfloor>r3 * 40\<rfloor>" "30 + \<lfloor>r3 * 40\<rfloor> < 70"
      using floor_draw_lower [OF u(3), of 40] floor_draw_upper [OF u(3), of 40] by simp_all
    ultimately show ?thesis by blast
  qed
  have onto: "\<exists>r1 r2 r3. unit_draw r1 \<and> unit_draw r2 \<and> unit_draw r3 \<and>
         generateColor r1 r2 r3 = \<lparr> h = of_int i, s = of_int j, l = of_int k \<rparr>"
    if b: "0 \<le> i" "i < 360" "40 \<le> j" "j < 80" "30 \<le> k" "k < 70"
  proof -
    from b have j: "0 \<le> j - 40" "j - 40 < 40" and k: "0 \<le> k - 30" "k - 30 < 40" by simp_all
    have fi: "\<lfloor>real_of_int i / 360 * 360\<rfloor> = i"
      using floor_scaled_hit(2) [OF b(1,2)] by simp
    have fj: "\<lfloor>real_of_int (j - 40) / 40 * 40\<rfloor> = j - 40"
      using floor_scaled_hit(2) [OF j] by simp
    have fk: "\<lfloor>real_of_int (k - 30) / 40 * 40\<rfloor> = k - 30"
      using floor_scaled_hit(2) [OF k] by simp
    have "generateColor (real_of_int i / 360) (real_of_int (j - 40) / 40)
            (real_of_int (k - 30) / 40) = \<lparr> h = of_int i, s = of_int j, l = of_int k \<rparr>"
      unfolding generateColor_def by (simp only: fi fj fk) simp
    moreover have "unit_draw (real_of_int i / 360)"
      using floor_scaled_hit(1) [OF b(1,2)] by simp
    moreover have "unit_draw (real_of_int (j - 40) / 40)"
      using floor_scaled_hit(1) [OF j] by simp
    moreover have "unit_draw (real_of_int (k - 30) / 40)"
      using floor_scaled_hit(1) [OF k] by simp
    ultimately show ?thesis by blast
  qed
  from into onto show ?thesis by blast
qed

theorem generateColor_range_witness:
  "unit_draw (1/4) \<and>
   generateColor (1/4) (1/4) (1/4) = \<lparr> h = 90, s = 50, l = 40 \<rparr> \<and>
   (\<exists>r1 r2 r3. unit_draw r1 \<and> unit_draw r2 \<and> unit_draw r3 \<and>
      generateColor r1 r2 r3 = \<lparr> h = 359, s = 79, l = 69 \<rparr>) \<and>
   (\<exists>i j k. generateColor (1/4) (1/4) (1/4) = \<lparr> h = of_int i, s = of_int j, l = of_int k \<rparr> \<and>
      0 \<le> i \<and> i < 360 \<and> 40 \<le> j \<and> j < 80 \<and> 30 \<le> k \<and> k < 70)"
proof -
  have u: "unit_draw (1/4)" by (simp add: unit_draw_def)
  have c: "generateColor (1/4) (1/4) (1/4) = \<lparr> h = 90, s = 50, l = 40 \<rparr>"
    by (simp add: generateColor_def)
  from generateColor_range [of "1/4" "1/4" "1/4" 359 79 69] u
  have a: "\<exists>r1 r2 r3. unit_draw r1 \<and> unit_draw r2 \<and> unit_draw r3 \<and>
      generateColor r1 r2 r3 = \<lparr> h = 359, s = 79, l = 69 \<rparr>"
    and b: "\<exists>i j k. generateColor (1/4) (1/4) (1/4) = \<lparr> h = of_int i, s = of_int j, l = of_int k \<rparr> \<and>
      0 \<le> i \<and> i < 360 \<and> 40 \<le> j \<and> j < 80 \<and> 30 \<le> k \<and> k < 70"
    by simp_all
  from u c a b show ?thesis by blast
qed

text \<open>
  Claim C8 as stated fails at the upper ends of its closed intervals: no draws give
  saturation 80, and none give lightness 70.
\<close>

theorem generateColor_upper_ends_missing:
  "\<not> (\<exists>r1 r2 r3. unit_draw r1 \<and> unit_draw r2 \<and> unit_draw r3 \<and>
         s (generateColor r1 r2 r3) = 80) \<and>
   \<not> (\<exists>r1 r2 r3. unit_draw r1 \<and> unit_draw r2 \<and> unit_draw r3 \<and>
         l (generateColor r1 r2 r3) = 70)"
proof -
  have a: "s (generateColor r1 r2 r3) \<noteq> 80" if "unit_draw r2" for r1 r2 r3
  proof -
    have "\<lfloor>r2 * 40\<rfloor> < 40" using floor_draw_upper [OF that, of 40] by simp
    then have "real_of_int \<lfloor>r2 * 40\<rfloor> \<noteq> 40" by linarith
    then show ?thesis by (simp add: generateColor_def)
  qed
  have b: "l (generateColor r1 r2 r3) \<noteq> 70" if "unit_draw r3" for r1 r2 r3
    using generateColor_l_bounds(2) [OF that, of r1 r2] by simp
  from a b show ?thesis by blast
qed

text \<open>
  Claim C6. For every base colour, difference and draw, \<^verbatim>\<open>getTargetColor\<close> keeps hue and
  saturation and sets the lightness to the base lightness plus or minus the difference,
  clamped to \<open>[0, 100]\<close>; a draw above \<open>1/2\<close> adds, any other subtracts, and both happen.
  Where the clamp cuts the shift short the result is the bound itself: nothing restores
  the difference.
\<close>

theorem getTargetColor_shift:
  "h (getTargetColor base diff r) = h base \<and>
   s (getTargetColor base diff r) = s base \<and>
   l (getTargetColor base diff r) = max 0 (min 100 (l base + (if r > 0.5 then diff else - diff))) \<and>
   getTargetColor base diff (3/4) = base \<lparr> l := max 0 (min 100 (l base + diff)) \<rparr> \<and>
   getTargetColor base diff (1/4) = base \<lparr> l := max 0 (min 100 (l base - diff)) \<rparr> \<and>
   (r > 0.5 \<and> 100 \<le> l base + diff \<longrightarrow> l (getTargetColor base diff r) = 100) \<and>
   (\<not> r > 0.5 \<and> l base - diff \<le> 0 \<longrightarrow> l (getTargetColor base diff r) = 0)"
  by (simp add: getTargetColor_def Let_def)

theorem getTargetColor_shift_witness:
  "getTargetColor \<lparr> h = 0, s = 40, l = 95 \<rparr> 20 (3/4) = \<lparr> h = 0, s = 40, l = 100 \<rparr> \<and>
   getTargetColor \<lparr> h = 0, s = 40, l = 95 \<rparr> 20 (1/4) = \<lparr> h = 0, s = 40, l = 75 \<rparr> \<and>
   getTargetColor \<lparr> h = 0, s = 40, l = 5 \<rparr> 20 (1/4) = \<lparr> h = 0, s = 40, l = 0 \<rparr>"
  using getTargetColor_shift [of "\<lparr> h = 0, s = 40, l = 95 \<rparr>" 20 "3/4"]
    getTargetColor_shift [of "\<lparr> h = 0, s = 40, l = 5 \<rparr>" 20 "1/4"]
  by simp

text \<open>
  Claim C9. For a base colour from \<^verbatim>\<open>generateColor\<close> (its lightness a whole number from 30
  to 69) and a difference between 1.5 and 20, as every difference computed from a score
  \<open>\<ge> 0\<close> is, the clamp of \<^verbatim>\<open>getTargetColor\<close> changes nothing: the shifted lightness is
  strictly between 0 and 100 and differs from the base lightness by exactly the difference,
  so it is never the base lightness.
\<close>

theorem clamp_never_binds:
  assumes "unit_draw r1" and "unit_draw r2" and "unit_draw r3"
    and "1.5 \<le> diff" and "diff \<le> 20"
  shows "(let base = generateColor r1 r2 r3; t = getTargetColor base diff r
          in (\<exists>k. l base = of_int k \<and> 30 \<le> k \<and> k \<le> 69) \<and>
             l t = l base + (if r > 0.5 then diff else - diff) \<and>
             \<bar>l t - l base\<bar> = diff \<and> l t \<noteq> l base \<and> 0 < l t \<and> l t < 100 \<and>
             (\<forall>sc\<ge>0. 1.5 \<le> newDiff sc \<and> newDiff sc \<le> 20 \<and>
                l (getTargetColor base (newDiff sc) r) =
                  l base + (if r > 0.5 then newDiff sc else - newDiff sc)))"
proof -
  define base where "base = generateColor r1 r2 r3"
  define t where "t = getTargetColor base diff r"
  have lb: "30 \<le> l base" "l base \<le> 69"
    using generateColor_l_bounds [OF assms(3), of r1 r2] by (simp_all add: base_def)
  have a: "0 \<le> \<lfloor>r3 * 40\<rfloor>" using floor_draw_lower [OF assms(3), of 40] by simp
  have b: "\<lfloor>r3 * 40\<rfloor> < 40" using floor_draw_upper [OF assms(3), of 40] by simp
  have "l base = of_int (30 + \<lfloor>r3 * 40\<rfloor>)" by (simp add: base_def generateColor_def)
  moreover from a b have "30 \<le> 30 + \<lfloor>r3 * 40\<rfloor>" "30 + \<lfloor>r3 * 40\<rfloor> \<le> 69" by linarith+
  ultimately have k: "\<exists>k. l base = of_int k \<and> 30 \<le> k \<and> k \<le> 69" by blast
  have e: "l t = l base + (if r > 0.5 then diff else - diff)"
    unfolding t_def by (rule getTargetColor_exact [OF lb assms(4,5)])
  from e assms(4) have d: "\<bar>l t - l base\<bar> = diff" "l t \<noteq> l base" by auto
  from e lb assms(4,5) have r: "0 < l t" "l t < 100" by (auto split: if_splits)
  have n: "\<forall>sc\<ge>0. 1.5 \<le> newDiff sc \<and> newDiff sc \<le> 20 \<and>
                l (getTargetColor base (newDiff sc) r) =
                  l base + (if r > 0.5 then newDiff sc else - newDiff sc)"
  proof (intro allI impI)
    fix sc :: int
    assume sc: "0 \<le> sc"
    have lo: "1.5 \<le> newDiff sc" using newDiff_lower [of sc] by (simp add: MIN_DIFF_def)
    have hi: "newDiff sc \<le> 20" using newDiff_upper [OF sc] by (simp add: INITIAL_DIFF_def)
    from lo hi getTargetColor_exact [OF lb lo hi, of r]
    show "1.5 \<le> newDiff sc \<and> newDiff sc \<le> 20 \<and>
                l (getTargetColor base (newDiff sc) r) =
                  l base + (if r > 0.5 then newDiff sc else - newDiff sc)"
      by simp
  qed
  from k e d r n show ?thesis
    unfolding Let_def base_def [symmetric] t_def [symmetric] by blast
qed

theorem clamp_never_binds_witness:
  "unit_draw (1/4) \<and> (1.5::real) \<le> 20 \<and> (20::real) \<le> 20 \<and>
   l (generateColor (1/4) (1/4) (1/4)) = 40 \<and>
   l (getTargetColor (generateColor (1/4) (1/4) (1/4)) 20 (1/4)) = 20 \<and>
   l (getTargetColor (generateColor (1/4) (1/4) (1/4)) (newDiff 1) (3/4)) = 56.5"
proof -
  have u: "unit_draw (1/4)" by (simp add: unit_draw_def)
  have lo: "(1.5::real) \<le> 20" and hi: "(20::real) \<le> 20" by simp_all
  have c: "l (generateColor (1/4) (1/4) (1/4)) = 40" by (simp add: generateColor_def)
  from clamp_never_binds [OF u u u lo hi, of "1/4"]
  have a: "l (getTargetColor (generateColor (1/4) (1/4) (1/4)) 20 (1/4)) = 20"
    by (simp add: Let_def c)
  from clamp_never_binds [OF u u u lo hi, of "3/4"]
  have "\<forall>sc\<ge>0. l (getTargetColor (generateColor (1/4) (1/4) (1/4)) (newDiff sc) (3/4)) =
          40 + newDiff sc"
    by (simp add: Let_def c)
  then have "l (getTargetColor (generateColor (1/4) (1/4) (1/4)) (newDiff 1) (3/4)) =
          40 + newDiff 1"
    by simp
  then have b: "l (getTargetColor (generateColor (1/4) (1/4) (1/4)) (newDiff 1) (3/4)) = 56.5"
    by (simp add: newDiff_1)
  from u c a b show ?thesis by simp
qed

section \<open>The session\<close>

text \<open>
  Claim C10. Before the first start the grid is the empty list and the target index is
  \<open>-1\<close>; a click in this state changes nothing, and no sequence of clicks and ticks
  leaves it. A grid of 25 cells is there after a start: every state the component can be
  in is the initial one or has 25 cells.
\<close>

theorem initial_grid_empty:
  "grid initial = [] \<and> length (grid initial) = 0 \<and> targetIndex initial = - 1 \<and>
   activityState initial = Idle \<and>
   handleBlockClick initial index d = initial \<and>
   ((\<forall>e\<in>set es. \<not> isStart e) \<longrightarrow> run initial es = initial) \<and>
   length (grid (startGame initial d)) = 25 \<and>
   (reachable st \<longrightarrow>
      st = initial \<or> activityState st \<noteq> Idle \<and> length (grid st) = 25)"
proof -
  have a: "grid initial = []" "targetIndex initial = - 1" "activityState initial = Idle"
    by (simp_all add: initial_def activityState_def)
  have b: "handleBlockClick initial index d = initial"
    by (rule handleBlockClick_inactive) (simp add: initial_def)
  have c: "(\<forall>e\<in>set es. \<not> isStart e) \<longrightarrow> run initial es = initial"
    by (simp add: run_initial_no_start)
  have e: "length (grid (startGame initial d)) = 25"
    by (simp add: startGame_def generateLevel_length)
  have f: "reachable st \<longrightarrow>
      st = initial \<or> activityState st \<noteq> Idle \<and> length (grid st) = 25"
  proof
    assume "reachable st"
    then have "session_inv st" by (rule reachable_session_inv)
    then show "st = initial \<or> activityState st \<noteq> Idle \<and> length (grid st) = 25"
      unfolding session_inv_def activityState_def by auto
  qed
  from a b c e f show ?thesis by simp
qed

theorem initial_grid_empty_witness:
  "run initial [Tick, Click 3 sample_draws, Click (- 1) sample_draws, Tick] = initial \<and>
   grid (run initial [Tick, Click 3 sample_draws, Click (- 1) sample_draws, Tick]) = [] \<and>
   handleBlockClick initial 0 sample_draws = initial \<and>
   reachable (startGame initial sample_draws) \<and>
   length (grid (startGame initial sample_draws)) = 25"
proof -
  note w = initial_grid_empty [of 0 sample_draws
      "[Tick, Click 3 sample_draws, Click (- 1) sample_draws, Tick]"
      "startGame initial sample_draws"]
  from w have r: "run initial [Tick, Click 3 sample_draws, Click (- 1) sample_draws, Tick] = initial"
    by simp
  from w have "grid initial = []" by simp
  with r have g: "grid (run initial [Tick, Click 3 sample_draws, Click (- 1) sample_draws, Tick]) = []"
    by simp
  from w have c: "handleBlockClick initial 0 sample_draws = initial" by simp
  from w have l: "length (grid (startGame initial sample_draws)) = 25" by simp
  from r g c l reachable_startGame_sample show ?thesis by simp
qed

text \<open>
  Claim C7. A tick changes the state only in the active state, and then takes exactly one
  second off and leaves score and grid alone; in an active state with time left it does
  change the state; when it brings the time to 0 the state is over and the timer is
  stopped. From an active state with two seconds left, two ticks give time 0 and state
  over, and any number of further ticks change nothing.
\<close>

theorem tick_behaviour:
  assumes "reachable st"
  shows "(activityState st \<noteq> Active \<longrightarrow> tick st = st) \<and>
         (tick st \<noteq> st \<longrightarrow>
            activityState st = Active \<and> timeLeft (tick st) = timeLeft st - 1 \<and>
            score (tick st) = score st \<and> grid (tick st) = grid st \<and>
            targetIndex (tick st) = targetIndex st) \<and>
         (activityState st = Active \<and> 0 < timeLeft st \<longrightarrow>
            tick st \<noteq> st \<and>
            activityState (tick st) = (if timeLeft (tick st) = 0 then Over else Active)) \<and>
         (timeLeft (tick st) = 0 \<and> tick st \<noteq> st \<longrightarrow>
            activityState (tick st) = Over \<and> \<not> timerRunning (tick st)) \<and>
         (activityState st = Active \<and> timeLeft st = 2 \<longrightarrow>
            timeLeft (tick (tick st)) = 0 \<and> activityState (tick (tick st)) = Over \<and>
            score (tick (tick st)) = score st \<and> grid (tick (tick st)) = grid st \<and>
            (\<forall>n. (tick ^^ n) (tick (tick st)) = tick (tick st)))"
proof -
  from assms have inv: "session_inv st" by (rule reachable_session_inv)
  then have go: "isGameOver st \<longrightarrow> \<not> isActive st" by (simp add: session_inv_def)
  have c1: "activityState st \<noteq> Active \<longrightarrow> tick st = st"
    using go by (auto simp add: activityState_def tick_def timerRunning_def)
  have c2: "tick st \<noteq> st \<longrightarrow>
            activityState st = Active \<and> timeLeft (tick st) = timeLeft st - 1 \<and>
            score (tick st) = score st \<and> grid (tick st) = grid st \<and>
            targetIndex (tick st) = targetIndex st"
    using go by (auto simp add: activityState_def tick_def timerRunning_def)
  have c3: "activityState st = Active \<and> 0 < timeLeft st \<longrightarrow>
            tick st \<noteq> st \<and>
            activityState (tick st) = (if timeLeft (tick st) = 0 then Over else Active)"
  proof
    assume a: "activityState st = Active \<and> 0 < timeLeft st"
    then have act: "isActive st" "\<not> isGameOver st" "0 < timeLeft st"
      by (simp_all add: activityState_def split: if_splits)
    have "timeLeft (tick st) \<noteq> timeLeft st"
      using act by (simp add: tick_def timerRunning_def)
    then have "tick st \<noteq> st" by auto
    moreover have "activityState (tick st) = (if timeLeft (tick st) = 0 then Over else Active)"
      using act by (simp add: tick_def timerRunning_def activityState_def)
    ultimately show "tick st \<noteq> st \<and>
            activityState (tick st) = (if timeLeft (tick st) = 0 then Over else Active)"
      by simp
  qed
  have c4: "timeLeft (tick st) = 0 \<and> tick st \<noteq> st \<longrightarrow>
            activityState (tick st) = Over \<and> \<not> timerRunning (tick st)"
    by (auto simp add: activityState_def tick_def timerRunning_def split: if_splits)
  have c5: "activityState st = Active \<and> timeLeft st = 2 \<longrightarrow>
            timeLeft (tick (tick st)) = 0 \<and> activityState (tick (tick st)) = Over \<and>
            score (tick (tick st)) = score st \<and> grid (tick (tick st)) = grid st \<and>
            (\<forall>n. (tick ^^ n) (tick (tick st)) = tick (tick st))"
  proof
    assume a: "activityState st = Active \<and> timeLeft st = 2"
    then have act: "isActive st" "\<not> isGameOver st" "timeLeft st = 2"
      by (simp_all add: activityState_def split: if_splits)
    have t1: "tick st = st \<lparr> timeLeft := 1 \<rparr>"
      using act by (simp add: tick_def timerRunning_def)
    have t2: "tick (tick st) = st \<lparr> isActive := False, isGameOver := True, timeLeft := 0 \<rparr>"
      unfolding t1 using act by (simp add: tick_def timerRunning_def)
    have "tick (tick (tick st)) = tick (tick st)"
      unfolding t2 by (simp add: tick_def timerRunning_def)
    then have "\<forall>n. (tick ^^ n) (tick (tick st)) = tick (tick st)"
      by (simp add: tick_fixed_funpow)
    then show "timeLeft (tick (tick st)) = 0 \<and> activityState (tick (tick st)) = Over \<and>
            score (tick (tick st)) = score st \<and> grid (tick (tick st)) = grid st \<and>
            (\<forall>n. (tick ^^ n) (tick (tick st)) = tick (tick st))"
      by (simp add: t2 activityState_def)
  qed
  from c1 c2 c3 c4 c5 show ?thesis by blast
qed

theorem tick_behaviour_witness:
  "reachable two_seconds_left \<and> activityState two_seconds_left = Active \<and>
   timeLeft two_seconds_left = 2 \<and>
   timeLeft (tick two_seconds_left) = 1 \<and> activityState (tick two_seconds_left) = Active \<and>
   timeLeft (tick (tick two_seconds_left)) = 0 \<and>
   activityState (tick (tick two_seconds_left)) = Over \<and>
   (tick ^^ 5) (tick (tick two_seconds_left)) = tick (tick two_seconds_left) \<and>
   reachable initial \<and> activityState initial = Idle \<and> tick initial = initial"
proof -
  have a: "activityState two_seconds_left = Active" and t: "timeLeft two_seconds_left = 2"
    by (simp_all add: two_seconds_left_eq activityState_def)
  have i: "activityState initial = Idle" by (simp add: initial_def activityState_def)
  note w = tick_behaviour [OF reachable_two_seconds_left]
  from w a t have one: "timeLeft (tick two_seconds_left) = 1"
    "activityState (tick two_seconds_left) = Active"
    by auto
  from w a t have two: "timeLeft (tick (tick two_seconds_left)) = 0"
    "activityState (tick (tick two_seconds_left)) = Over"
    "(tick ^^ 5) (tick (tick two_seconds_left)) = tick (tick two_seconds_left)"
    by blast+
  from tick_behaviour [OF reachable_initial] i have idle: "tick initial = initial" by simp
  from reachable_two_seconds_left reachable_initial a t i one two idle show ?thesis by simp
qed

text \<open>
  Claim C2, as the code has it. The buttons of the grid never pass an index outside
  \<open>[0, 25)\<close>, and \<^verbatim>\<open>handleBlockClick\<close> has no check of its own for one. Called with such an
  index it changes nothing in the idle and over states; in the active state it is a click
  on a wrong cell: three seconds off, not below 0, with score and grid as before, and the
  session still active when more than three seconds were left.
\<close>

theorem click_out_of_range:
  assumes "reachable st" and "index < 0 \<or> 25 \<le> index"
  shows "index \<notin> set (gridButtons st) \<and>
         (activityState st \<noteq> Active \<longrightarrow> handleBlockClick st index d = st) \<and>
         (activityState st = Active \<longrightarrow>
            timeLeft (handleBlockClick st index d) = max 0 (timeLeft st - 3) \<and>
            score (handleBlockClick st index d) = score st \<and>
            grid (handleBlockClick st index d) = grid st) \<and>
         (activityState st = Active \<and> 3 < timeLeft st \<longrightarrow>
            activityState (handleBlockClick st index d) = Active)"
proof -
  from assms(1) have inv: "session_inv st" by (rule reachable_session_inv)
  have nb: "index \<notin> set (gridButtons st)"
    using gridButtons_range [OF inv, of index] assms(2) by auto
  have idle: "activityState st \<noteq> Active \<longrightarrow> handleBlockClick st index d = st"
  proof
    assume "activityState st \<noteq> Active"
    then have "\<not> isActive st \<or> isGameOver st"
      by (simp add: activityState_def split: if_splits)
    then show "handleBlockClick st index d = st" by (rule handleBlockClick_inactive)
  qed
  have miss: "handleBlockClick st index d = st \<lparr> timeLeft := max 0 (timeLeft st - 3) \<rparr>"
    if a: "activityState st = Active"
  proof -
    from a have act: "isActive st" "\<not> isGameOver st"
      by (simp_all add: activityState_def split: if_splits)
    with inv have "0 \<le> targetIndex st" "targetIndex st < 25" by (simp_all add: session_inv_def)
    with assms(2) have "index \<noteq> targetIndex st" by auto
    from handleBlockClick_miss [OF act this] show ?thesis .
  qed
  have active: "activityState st = Active \<longrightarrow>
            timeLeft (handleBlockClick st index d) = max 0 (timeLeft st - 3) \<and>
            score (handleBlockClick st index d) = score st \<and>
            grid (handleBlockClick st index d) = grid st"
    using miss by simp
  have stays: "activityState st = Active \<and> 3 < timeLeft st \<longrightarrow>
            activityState (handleBlockClick st index d) = Active"
    using miss by (auto simp add: activityState_def)
  from nb idle active stays show ?thesis by blast
qed

theorem click_out_of_range_witness:
  "reachable (startGame initial sample_draws) \<and> ((25::int) < 0 \<or> (25::int) \<le> 25) \<and>
   activityState (startGame initial sample_draws) = Active \<and>
   25 \<notin> set (gridButtons (startGame initial sample_draws)) \<and>
   timeLeft (handleBlockClick (startGame initial sample_draws) 25 sample_draws) = 57 \<and>
   score (handleBlockClick (startGame initial sample_draws) 25 sample_draws) = 0 \<and>
   activityState (handleBlockClick (startGame initial sample_draws) 25 sample_draws) = Active \<and>
   reachable initial \<and> ((- 1::int) < 0 \<or> (25::int) \<le> - 1) \<and>
   activityState initial = Idle \<and>
   handleBlockClick initial (- 1) sample_draws = initial"
proof -
  have p: "(25::int) < 0 \<or> (25::int) \<le> 25" and q: "(- 1::int) < 0 \<or> (25::int) \<le> - 1"
    by simp_all
  have a: "activityState (startGame initial sample_draws) = Active"
    by (simp add: startGame_sample activityState_def)
  have t: "timeLeft (startGame initial sample_draws) = 60"
    "score (startGame initial sample_draws) = 0"
    by (simp_all add: startGame_sample)
  have i: "activityState initial = Idle"
    by (simp add: initial_def activityState_def)
  from click_out_of_range [OF reachable_startGame_sample p, of sample_draws]
    click_out_of_range [OF reachable_initial q, of sample_draws]
    reachable_startGame_sample reachable_initial
  show ?thesis by (simp add: a t i)
qed

text \<open>
  Claim C2 as stated fails in the active state: right after a start,
  \<^verbatim>\<open>handleBlockClick\<close> called with index 25 or \<open>-1\<close> brings the time from 60 to 57.
\<close>

theorem click_out_of_range_costs_time:
  "reachable (startGame initial sample_draws) \<and>
   activityState (startGame initial sample_draws) = Active \<and>
   timeLeft (startGame initial sample_draws) = 60 \<and>
   timeLeft (handleBlockClick (startGame initial sample_draws) 25 sample_draws) = 57 \<and>
   timeLeft (handleBlockClick (startGame initial sample_draws) (- 1) sample_draws) = 57"
  using reachable_startGame_sample
  by (simp add: startGame_sample handleBlockClick_def activityState_def initial_def)

text \<open>
  Claim C1 on the code. In an active state with at most three seconds left, a click on a
  cell that is not the target brings the time to 0, but the state stays active and is not
  over; the timer is stopped at time 0, so no tick ends the session later, and a click on
  the target still scores. So it is in the state with two seconds left.
\<close>

theorem wrong_click_stays_active:
  assumes "activityState st = Active" and "index \<noteq> targetIndex st" and "timeLeft st \<le> 3"
  shows "timeLeft (handleBlockClick st index d) = 0 \<and>
         activityState (handleBlockClick st index d) = Active \<and>
         isActive (handleBlockClick st index d) \<and>
         \<not> isGameOver (handleBlockClick st index d) \<and>
         \<not> timerRunning (handleBlockClick st index d) \<and>
         tick (handleBlockClick st index d) = handleBlockClick st index d \<and>
         score (handleBlockClick (handleBlockClick st index d) (targetIndex st) d') = score st + 1"
proof -
  from assms(1) have act: "isActive st" "\<not> isGameOver st"
    by (simp_all add: activityState_def split: if_splits)
  from assms(3) have z: "max 0 (timeLeft st - 3) = 0" by simp
  have m: "handleBlockClick st index d = st \<lparr> timeLeft := 0 \<rparr>"
    using handleBlockClick_miss [OF act assms(2), of d] by (simp only: z)
  have hit: "score (handleBlockClick (st \<lparr> timeLeft := 0 \<rparr>) (targetIndex st) d') = score st + 1"
    using act by (simp add: handleBlockClick_def Let_def generateLevel_frame)
  from act hit show ?thesis
    unfolding m by (simp add: activityState_def timerRunning_def tick_def)
qed

theorem wrong_click_stays_active_witness:
  "reachable two_seconds_left \<and>
   activityState two_seconds_left = Active \<and> (0::int) \<noteq> targetIndex two_seconds_left \<and>
   timeLeft two_seconds_left = 2 \<and> targetIndex two_seconds_left = 6 \<and>
   timeLeft (handleBlockClick two_seconds_left 0 sample_draws) = 0 \<and>
   activityState (handleBlockClick two_seconds_left 0 sample_draws) = Active \<and>
   tick (handleBlockClick two_seconds_left 0 sample_draws) =
     handleBlockClick two_seconds_left 0 sample_draws \<and>
   score (handleBlockClick (handleBlockClick two_seconds_left 0 sample_draws) 6 sample_draws) = 1"
proof -
  have a: "activityState two_seconds_left = Active"
    and i: "(0::int) \<noteq> targetIndex two_seconds_left"
    and t: "timeLeft two_seconds_left \<le> 3"
    by (simp_all add: two_seconds_left_eq activityState_def)
  have e: "timeLeft two_seconds_left = 2" "targetIndex two_seconds_left = 6"
    "score two_seconds_left = 0"
    by (simp_all add: two_seconds_left_eq)
  from wrong_click_stays_active [OF a i t, of sample_draws sample_draws]
    reachable_two_seconds_left a i e
  show ?thesis by simp
qed

end
